theory Spec2Isabelle
  imports Complex_Main "HOL-Library.Monad_Syntax"
begin

section \<open>Python values and dictionaries\<close>

text \<open>
  The hyperparameter values that occur in the grids of \<open>Training.hyperparameters\<close> are
  Python ints (\<open>range\<close>), floats (\<open>frange\<close>, \<open>mrange\<close>, \<open>np.logspace\<close>), strings,
  the bool \<open>False\<close> (\<open>bootstrap\<close>) and \<open>None\<close> (\<open>max_depth\<close>). Python ints are unbounded.
  Floats are modelled as exact rationals: rounding, infinities and nan are outside the model.
\<close>

datatype pyval = PInt int | PFloat rat | PStr string | PBool bool | PNone

datatype py_error = IndexError | KeyError | ValueError | NotImplementedError | UnboundLocalError

text \<open>\<open>isinstance(x, (float, int))\<close>; \<open>bool\<close> is a subclass of \<open>int\<close>.\<close>

fun is_float_or_int :: "pyval \<Rightarrow> bool" where
  "is_float_or_int (PInt _) = True"
| "is_float_or_int (PFloat _) = True"
| "is_float_or_int (PBool _) = True"
| "is_float_or_int (PStr _) = False"
| "is_float_or_int PNone = False"

text \<open>\<open>isinstance(x, (int, str))\<close>.\<close>

fun is_int_or_str :: "pyval \<Rightarrow> bool" where
  "is_int_or_str (PInt _) = True"
| "is_int_or_str (PBool _) = True"
| "is_int_or_str (PStr _) = True"
| "is_int_or_str (PFloat _) = False"
| "is_int_or_str PNone = False"

text \<open>The numeric value of a Python number (\<open>True\<close> is 1, \<open>False\<close> is 0).\<close>

fun num_val :: "pyval \<Rightarrow> rat option" where
  "num_val (PInt i) = Some (of_int i)"
| "num_val (PFloat r) = Some r"
| "num_val (PBool b) = Some (if b then 1 else 0)"
| "num_val (PStr _) = None"
| "num_val PNone = None"

text \<open>
  Python's \<open>==\<close> (and the matching hash) on these values: numbers compare by value across
  int, bool and float, strings with strings, \<open>None\<close> with \<open>None\<close>.
\<close>

definition py_eq :: "pyval \<Rightarrow> pyval \<Rightarrow> bool" where
  "py_eq a b =
     (case (num_val a, num_val b) of
        (Some x, Some y) \<Rightarrow> x = y
      | (None, None) \<Rightarrow> a = b
      | _ \<Rightarrow> False)"

text \<open>
  A \<open>dict\<close> keeps insertion order: an association list with one entry per key.
  \<open>d[k] = v\<close> replaces the value of an existing key in place and appends a new key.
\<close>

type_synonym 'v dict = "(string \<times> 'v) list"

fun dict_get :: "'v dict \<Rightarrow> string \<Rightarrow> 'v option" where
  "dict_get [] k = None"
| "dict_get ((k', v) # d) k = (if k' = k then Some v else dict_get d k)"

fun dict_set :: "'v dict \<Rightarrow> string \<Rightarrow> 'v \<Rightarrow> 'v dict" where
  "dict_set [] k v = [(k, v)]"
| "dict_set ((k', v') # d) k v = (if k' = k then (k', v) # d else (k', v') # dict_set d k v)"

section \<open>The hyperparameter aggregator (\<open>Training.nested_cross_validation\<close>, lines 176--186)\<close>

text \<open>\<open>np.mean(value)\<close> on a list of numbers, in exact arithmetic.\<close>

definition np_mean :: "pyval list \<Rightarrow> pyval" where
  "np_mean value = PFloat (sum_list (map (\<lambda>x. case num_val x of Some r \<Rightarrow> r | None \<Rightarrow> 0) value)
                            / of_nat (length value))"

text \<open>
  \<open>Counter(value)\<close>: the elements are counted in order; an element equal to an existing key
  increments that key's count (the key object first inserted stays), a new one is appended.
\<close>

fun counter_add :: "(pyval \<times> nat) list \<Rightarrow> pyval \<Rightarrow> (pyval \<times> nat) list" where
  "counter_add [] x = [(x, 1)]"
| "counter_add ((k, c) # cs) x =
     (if py_eq k x then (k, Suc c) # cs else (k, c) # counter_add cs x)"

definition Counter :: "pyval list \<Rightarrow> (pyval \<times> nat) list" where
  "Counter value = foldl counter_add [] value"

text \<open>
  \<open>most_common(1)\<close> is \<open>heapq.nlargest(1, items, key=count)\<close>, which is \<open>max\<close> over the items
  in insertion order: the running best is replaced only by a strictly larger count, and an
  empty counter gives the empty list.
\<close>

fun py_max_count :: "(pyval \<times> nat) \<Rightarrow> (pyval \<times> nat) list \<Rightarrow> (pyval \<times> nat)" where
  "py_max_count best [] = best"
| "py_max_count best (x # xs) = py_max_count (if snd best < snd x then x else best) xs"

definition most_common1 :: "(pyval \<times> nat) list \<Rightarrow> (pyval \<times> nat) list" where
  "most_common1 items = (case items of [] \<Rightarrow> [] | x # xs \<Rightarrow> [py_max_count x xs])"

text \<open>
  One iteration of the aggregation loop for the entry \<open>key, value\<close> of \<open>best_hypers\<close>.
  The two \<open>if\<close> statements are independent (not \<open>if\<close>/\<open>elif\<close>): the second runs
  after the first and stores into the same key. \<open>most_common(1)[0]\<close> raises
  \<open>IndexError\<close> on an empty counter.
\<close>

definition aggregate_key :: "pyval dict \<Rightarrow> string \<Rightarrow> pyval list \<Rightarrow> py_error + pyval dict" where
  "aggregate_key final_hypers key value =
     (let fh1 = (if list_all is_float_or_int value
                 then dict_set final_hypers key (np_mean value) else final_hypers)
      in if list_all is_int_or_str value
         then (case most_common1 (Counter value) of
                 [] \<Rightarrow> Inl IndexError
               | (mode, _) # _ \<Rightarrow> Inr (dict_set fh1 key mode))
         else Inr fh1)"

text \<open>The loop \<open>for key, value in best_hypers.items()\<close>, starting from \<open>final_hypers = {}\<close>.\<close>

fun aggregate_loop :: "pyval dict \<Rightarrow> pyval list dict \<Rightarrow> py_error + pyval dict" where
  "aggregate_loop final_hypers [] = Inr final_hypers"
| "aggregate_loop final_hypers ((key, value) # rest) =
     (case aggregate_key final_hypers key value of
        Inl e \<Rightarrow> Inl e
      | Inr fh \<Rightarrow> aggregate_loop fh rest)"

definition aggregate :: "pyval list dict \<Rightarrow> py_error + pyval dict" where
  "aggregate best_hypers = aggregate_loop [] best_hypers"


text \<open>
  Lines 170--174: the best configuration of one fold is appended, key by key, to the
  Per-Fold Configuration Log \<open>best_hypers\<close>; a key seen for the first time starts with
  the empty list.
\<close>

definition log_entry :: "pyval list dict \<Rightarrow> string \<Rightarrow> pyval \<Rightarrow> pyval list dict" where
  "log_entry best_hypers key value =
     (let bh = (if dict_get best_hypers key = None then dict_set best_hypers key [] else best_hypers)
      in case dict_get bh key of
           None \<Rightarrow> bh
         | Some l \<Rightarrow> dict_set bh key (l @ [value]))"

fun log_params :: "pyval list dict \<Rightarrow> pyval dict \<Rightarrow> pyval list dict" where
  "log_params best_hypers [] = best_hypers"
| "log_params best_hypers ((key, value) # rest) = log_params (log_entry best_hypers key value) rest"

section \<open>\<open>Processing\<close>\<close>

text \<open>
  \<open>frange\<close> and \<open>mrange\<close> are generators driven by a \<open>while\<close> loop; \<open>list(...)\<close> collects
  what they yield. With a step that does not move \<open>start\<close> past \<open>stop\<close> the loop never ends:
  the result is \<open>None\<close> then.
\<close>

partial_function (option) frange :: "rat \<Rightarrow> rat \<Rightarrow> rat \<Rightarrow> rat list option" where
  "frange start stop step =
     (if start < stop
      then Option.bind (frange (start + step) stop step) (\<lambda>rest. Some (start # rest))
      else Some [])"

partial_function (option) mrange :: "rat \<Rightarrow> rat \<Rightarrow> rat \<Rightarrow> rat list option" where
  "mrange start stop factor =
     (if start \<le> stop
      then Option.bind (mrange (start * factor) stop factor) (\<lambda>rest. Some (start # rest))
      else Some [])"

text \<open>
  The table read from \<open>ppg_dataframe.csv\<close>: one row per session, with the columns
  \<open>Filename\<close> and \<open>State\<close> and the feature columns; a missing feature is \<open>None\<close>.
\<close>

record csv_row =
  Filename :: string
  State :: int
  features :: "real option list"

text \<open>
  \<open>y.value_counts()[c]\<close>: the series of counts is indexed by the labels that occur, so a
  label that does not occur raises \<open>KeyError\<close>.
\<close>

definition value_counts_at :: "int list \<Rightarrow> int \<Rightarrow> py_error + nat" where
  "value_counts_at y c = (if c \<in> set y then Inr (count_list y c) else Inl KeyError)"

definition class_weighting_of :: "int list \<Rightarrow> py_error + pyval list" where
  "class_weighting_of y =
     (case value_counts_at y 0 of
        Inl e \<Rightarrow> Inl e
      | Inr c0 \<Rightarrow>
          (case value_counts_at y 1 of
             Inl e \<Rightarrow> Inl e
           | Inr c1 \<Rightarrow> Inr [PInt 1, PFloat (of_nat c0 / of_nat c1)]))"

definition extract_data ::
  "csv_row list \<Rightarrow> py_error + (real option list list \<times> int list \<times> string list \<times> pyval list)" where
  "extract_data df =
     (let X = map features df; y = map State df; sessions = map Filename df
      in case class_weighting_of y of
           Inl e \<Rightarrow> Inl e
         | Inr class_weighting \<Rightarrow> Inr (X, y, sessions, class_weighting))"

section \<open>\<open>Analysis.confusion\<close>\<close>

text \<open>
  \<open>cm[i, j]\<close> on a two-dimensional array raises \<open>IndexError\<close> out of range. The counts are
  numpy integers: a division by zero gives \<open>inf\<close> or \<open>nan\<close> with a warning and no exception,
  which is \<open>None\<close> here.
\<close>

definition cm_at :: "int list list \<Rightarrow> nat \<Rightarrow> nat \<Rightarrow> py_error + int" where
  "cm_at cm i j =
     (if i < length cm \<and> j < length (cm ! i) then Inr (cm ! i ! j) else Inl IndexError)"

definition np_div :: "int \<Rightarrow> int \<Rightarrow> rat option" where
  "np_div a b = (if b = 0 then None else Some (of_int a / of_int b))"

record confusion_stats =
  model_accuracy :: "rat option"
  model_error :: "rat option"
  precision :: "rat option"
  recall :: "rat option"
  true_positive_rate :: "rat option"
  false_positive_rate :: "rat option"
  specificity :: "rat option"

text \<open>The function prints the dictionary \<open>confusion_stats\<close>; the model returns what is printed.\<close>

definition confusion :: "int list list \<Rightarrow> py_error + confusion_stats" where
  "confusion cm =
     (case cm_at cm 0 0 of Inl e \<Rightarrow> Inl e | Inr TP \<Rightarrow>
     (case cm_at cm 1 1 of Inl e \<Rightarrow> Inl e | Inr TN \<Rightarrow>
     (case cm_at cm 0 1 of Inl e \<Rightarrow> Inl e | Inr FP \<Rightarrow>
     (case cm_at cm 1 0 of Inl e \<Rightarrow> Inl e | Inr FN \<Rightarrow>
        Inr \<lparr> model_accuracy = np_div (TP + TN) (TP + TN + FP + FN),
              model_error = np_div (FP + FN) (TP + TN + FP + FN),
              precision = np_div TP (TP + FP),
              recall = np_div TP (TP + FN),
              true_positive_rate = np_div TP (TP + FN),
              false_positive_rate = np_div FP (FP + TN),
              specificity = np_div TN (TN + FP) \<rparr>))))"


section \<open>The hyperparameter grids (\<open>Training.hyperparameters\<close>)\<close>

text \<open>\<open>list(range(start, stop, step))\<close> for the positive steps the source uses.\<close>

definition py_range :: "int \<Rightarrow> int \<Rightarrow> int \<Rightarrow> pyval list" where
  "py_range start stop step = map PInt (filter (\<lambda>i. (i - start) mod step = 0) [start..stop - 1])"

text \<open>
  \<open>frange(0, 1.0, 0.1)\<close> starts from the int \<open>0\<close>, which is yielded as it is; every later
  element is a sum with a float and so a float.
\<close>

definition from_int_start :: "rat list \<Rightarrow> pyval list" where
  "from_int_start xs = (case xs of [] \<Rightarrow> [] | x # rest \<Rightarrow> PInt \<lfloor>x\<rfloor> # map PFloat rest)"

text \<open>
  What \<open>GridSearchCV(estimator, param_grid, cv=...)\<close> is built from. \<open>np.logspace(-2, 2, 5)\<close>
  and \<open>np.logspace(-2, 0, 3)\<close> are the library's powers of ten, written out.
\<close>

record search_setup =
  estimator :: string
  param_grid :: "pyval list dict"
  cv :: nat

definition svm_setup :: "search_setup option" where
  "svm_setup =
     Option.bind (frange 0 1 (1 / 10)) (\<lambda>cs.
     Option.bind (frange (2 / 100) (5 / 100) (1 / 1000)) (\<lambda>gs.
       Some \<lparr> estimator = ''SVC'',
              param_grid =
                [(''C'', from_int_start cs),
                 (''kernel'', [PStr ''linear'', PStr ''poly'', PStr ''rbf'', PStr ''sigmoid'']),
                 (''class_weight'', [PStr ''balanced'']),
                 (''degree'', py_range 1 6 1),
                 (''gamma'', map PFloat gs)],
              cv = 5 \<rparr>))"

definition random_forest_setup :: search_setup where
  "random_forest_setup =
     \<lparr> estimator = ''RandomForestClassifier'',
       param_grid =
         [(''n_estimators'', py_range 50 100 10),
          (''max_features'', [PStr ''sqrt'', PStr ''log2'']),
          (''max_depth'', [PNone]),
          (''min_samples_split'', py_range 2 8 1),
          (''min_samples_leaf'', py_range 1 5 1),
          (''bootstrap'', [PBool False])],
       cv = 5 \<rparr>"

definition knn_setup :: search_setup where
  "knn_setup =
     \<lparr> estimator = ''KNeighborsClassifier'',
       param_grid =
         [(''algorithm'', [PStr ''auto'', PStr ''ball_tree'', PStr ''kd_tree'', PStr ''brute'']),
          (''leaf_size'', py_range 10 50 10),
          (''metric'', [PStr ''euclidean'', PStr ''manhattan'', PStr ''chebyshev'', PStr ''minkowski'']),
          (''n_neighbors'', py_range 1 10 1),
          (''p'', [PInt 1, PInt 2]),
          (''weights'', [PStr ''uniform'', PStr ''distance''])],
       cv = 5 \<rparr>"

definition qda_setup :: "search_setup option" where
  "qda_setup =
     Option.bind (frange (1 / 10) 1 (1 / 10)) (\<lambda>rs.
       Some \<lparr> estimator = ''QuadraticDiscriminantAnalysis'',
              param_grid = [(''reg_param'', map PFloat rs)],
              cv = 50 \<rparr>)"

definition gaussian_nb_setup :: "search_setup option" where
  "gaussian_nb_setup =
     Option.bind (mrange (1 / 100000) 1 10) (\<lambda>vs.
       Some \<lparr> estimator = ''GaussianNB'',
              param_grid = [(''var_smoothing'', map PFloat vs)],
              cv = 5 \<rparr>)"

definition gaussian_pc_setup :: search_setup where
  "gaussian_pc_setup =
     \<lparr> estimator = ''CustomGPC'',
       param_grid =
         [(''c'', map PFloat [1 / 100, 1 / 10, 1, 10, 100]),
          (''l'', map PFloat [1 / 100, 1 / 10, 1, 10, 100]),
          (''n'', map PFloat [1 / 100, 1 / 10, 1]),
          (''max_iter_predict'', py_range 100 500 100)],
       cv = 5 \<rparr>"

text \<open>
  The chain of \<open>if model == ...\<close> statements: the names are distinct, so at most one binds
  \<open>grid_search\<close>. The outer \<open>None\<close> is a grid whose construction does not return, the inner
  \<open>None\<close> is \<open>grid_search\<close> left unbound.
\<close>

definition grid_search_of :: "string \<Rightarrow> search_setup option option" where
  "grid_search_of model =
     (if model = ''svm'' then map_option Some svm_setup
      else if model = ''random_forest'' then Some (Some random_forest_setup)
      else if model = ''knn'' then Some (Some knn_setup)
      else if model = ''qda'' then map_option Some qda_setup
      else if model = ''gaussian_nb'' then map_option Some gaussian_nb_setup
      else if model = ''gaussian_pc'' then Some (Some gaussian_pc_setup)
      else Some None)"

section \<open>The library\<close>

text \<open>
  The classifiers, the splitters, the standardiser and the reporting functions belong to
  scikit-learn, pandas and matplotlib, not to this repository: they are parameters of the
  model. A fitted model is described by its constructor call.
\<close>

datatype model =
  Model string "pyval dict"
| GaussianProcessModel pyval pyval pyval pyval

record 'sc sklearn =
  train_test_split :: "nat \<Rightarrow> int list \<Rightarrow> py_error + (nat list \<times> nat list)"
  scaler_fit :: "real list list \<Rightarrow> 'sc"
  scaler_transform :: "'sc \<Rightarrow> real list list \<Rightarrow> real list list"
  kfold_split :: "nat \<Rightarrow> nat \<Rightarrow> py_error + (nat list \<times> nat list) list"
  grid_search_fit :: "search_setup \<Rightarrow> real list list \<Rightarrow> int list \<Rightarrow> py_error + pyval dict"
  fit_predict :: "model \<Rightarrow> real list list \<Rightarrow> int list \<Rightarrow> real list list \<Rightarrow> py_error + int list"
  classification_report :: "int list \<Rightarrow> int list \<Rightarrow> py_error option"
  confusion_matrix :: "int list \<Rightarrow> int list \<Rightarrow> py_error + int list list"
  roc_plot :: "int list \<Rightarrow> int list \<Rightarrow> py_error option"
  pca_plot :: "string \<Rightarrow> real list list \<Rightarrow> int list \<Rightarrow> model \<Rightarrow> py_error option"

text \<open>
  \<open>train_test_split lib n y\<close> stands for \<open>train_test_split(..., test_size=0.2,
  random_state=42, stratify=y)\<close> on \<open>n\<close> rows and gives the positions of the rows of the
  two partitions; \<open>kfold_split lib k n\<close> stands for
  \<open>KFold(n_splits=k, shuffle=True, random_state=42).split\<close> on \<open>n\<close> rows;
  \<open>grid_search_fit\<close> for \<open>grid_search.fit(X_train, y_train)\<close> followed by
  \<open>best_params_\<close>; \<open>fit_predict\<close> for \<open>model.fit\<close> followed by \<open>model.predict\<close>.
  The reporting functions print or plot: \<open>Some e\<close> is the exception they raise, \<open>None\<close>
  their completion.
\<close>

definition hyperparameters ::
  "'sc sklearn \<Rightarrow> string \<Rightarrow> real list list \<Rightarrow> int list \<Rightarrow> (py_error + pyval dict) option" where
  "hyperparameters lib model X_train y_train =
     (case grid_search_of model of
        None \<Rightarrow> None
      | Some None \<Rightarrow> Some (Inl UnboundLocalError)
      | Some (Some grid_search) \<Rightarrow> Some (grid_search_fit lib grid_search X_train y_train))"


section \<open>\<open>Training.run_model\<close>\<close>

text \<open>\<open>Analysis.roc\<close> consists of library calls only (the ROC curve, its area, the plot).\<close>

definition roc :: "'sc sklearn \<Rightarrow> int list \<Rightarrow> int list \<Rightarrow> py_error option" where
  "roc lib y_test y_pred = roc_plot lib y_test y_pred"

text \<open>
  \<open>accuracy_score\<close> is the library's fraction of positions at which the two label vectors
  agree; vectors of different lengths are rejected with \<open>ValueError\<close>, and so is the empty
  vector here, for which the fraction does not exist.
\<close>

definition accuracy_score :: "int list \<Rightarrow> int list \<Rightarrow> py_error + rat" where
  "accuracy_score y_true y_pred =
     (if length y_true \<noteq> length y_pred \<or> y_true = [] then Inl ValueError
      else Inr (of_nat (length (filter (\<lambda>(t, p). t = p) (zip y_true y_pred)))
                 / of_nat (length y_true)))"

text \<open>
  The result is the content written to \<open>misclassified_sessions.csv\<close> and the returned
  accuracy. \<open>y_test != y_pred\<close> is an elementwise mask, and \<open>sessions_test[mask]\<close> keeps the
  sessions at the positions where the mask is true.
\<close>

definition run_model ::
  "'sc sklearn \<Rightarrow> model \<Rightarrow> real list list \<Rightarrow> int list \<Rightarrow> real list list \<Rightarrow> int list
     \<Rightarrow> string list \<Rightarrow> py_error + (string list \<times> rat)" where
  "run_model lib model X_train y_train X_test y_test sessions_test =
     (case fit_predict lib model X_train y_train X_test of Inl e \<Rightarrow> Inl e | Inr y_pred \<Rightarrow>
     (case classification_report lib y_test y_pred of Some e \<Rightarrow> Inl e | None \<Rightarrow>
     (case confusion_matrix lib y_test y_pred of Inl e \<Rightarrow> Inl e | Inr cm \<Rightarrow>
     (case confusion cm of Inl e \<Rightarrow> Inl e | Inr stats \<Rightarrow>
     (case roc lib y_test y_pred of Some e \<Rightarrow> Inl e | None \<Rightarrow>
     (if length y_pred \<noteq> length y_test \<or> length sessions_test \<noteq> length y_test
      then Inl ValueError
      else
        (let mask = map2 (\<noteq>) y_test y_pred;
             missed = map fst (filter snd (zip sessions_test mask))
         in case accuracy_score y_test y_pred of
              Inl e \<Rightarrow> Inl e
            | Inr acc \<Rightarrow> Inr (missed, acc))))))))"

section \<open>\<open>Training.nested_cross_validation\<close>\<close>

text \<open>Indexing an array or a series with a list of positions; a position out of range raises.\<close>

definition np_take :: "'a list \<Rightarrow> nat list \<Rightarrow> py_error + 'a list" where
  "np_take xs ix = (if list_all (\<lambda>i. i < length xs) ix then Inr (map (\<lambda>i. xs ! i) ix) else Inl IndexError)"

text \<open>Line 147: the three parallel sequences are split at the same positions.\<close>

record split_data =
  sp_train_rows :: "nat list"
  sp_test_rows :: "nat list"
  sp_X_train :: "real option list list"
  sp_X_test :: "real option list list"
  sp_y_train :: "int list"
  sp_y_test :: "int list"
  sp_sessions_train :: "string list"
  sp_sessions_test :: "string list"

definition split_stage ::
  "'sc sklearn \<Rightarrow> real option list list \<Rightarrow> int list \<Rightarrow> string list \<Rightarrow> py_error + split_data" where
  "split_stage lib X y sessions =
     (if length y \<noteq> length X \<or> length sessions \<noteq> length X then Inl ValueError
      else
       (case train_test_split lib (length X) y of Inl e \<Rightarrow> Inl e | Inr (train, test) \<Rightarrow>
       (case np_take X train of Inl e \<Rightarrow> Inl e | Inr X_train \<Rightarrow>
       (case np_take X test of Inl e \<Rightarrow> Inl e | Inr X_test \<Rightarrow>
       (case np_take y train of Inl e \<Rightarrow> Inl e | Inr y_train \<Rightarrow>
       (case np_take y test of Inl e \<Rightarrow> Inl e | Inr y_test \<Rightarrow>
       (case np_take sessions train of Inl e \<Rightarrow> Inl e | Inr sessions_train \<Rightarrow>
       (case np_take sessions test of Inl e \<Rightarrow> Inl e | Inr sessions_test \<Rightarrow>
          Inr \<lparr> sp_train_rows = train, sp_test_rows = test,
                 sp_X_train = X_train, sp_X_test = X_test,
                 sp_y_train = y_train, sp_y_test = y_test,
                 sp_sessions_train = sessions_train, sp_sessions_test = sessions_test \<rparr>))))))))"

text \<open>
  Lines 149--156. \<open>SimpleImputer(strategy='constant', fill_value=0)\<close>: fitting records the
  fill value for each column of the data it is given, transforming replaces the missing
  entries of a column by it. The rows of one table have the same width.
\<close>

definition imputer_fit :: "real option list list \<Rightarrow> real list" where
  "imputer_fit X = (case X of [] \<Rightarrow> [] | row # _ \<Rightarrow> replicate (length row) 0)"

definition imputer_transform :: "real list \<Rightarrow> real option list list \<Rightarrow> real list list" where
  "imputer_transform statistics X =
     map (\<lambda>row. map2 (\<lambda>s v. case v of None \<Rightarrow> s | Some x \<Rightarrow> x) statistics row) X"

record 'sc preprocessed =
  imputer_statistics :: "real list"
  scaler_fitted :: 'sc
  X_train_scaled :: "real list list"
  X_test_scaled :: "real list list"

definition preprocess ::
  "'sc sklearn \<Rightarrow> real option list list \<Rightarrow> real option list list \<Rightarrow> 'sc preprocessed" where
  "preprocess lib X_train X_test =
     (let imputer = imputer_fit X_train;
          X_train1 = imputer_transform imputer X_train;
          X_test1 = imputer_transform imputer X_test;
          scaler = scaler_fit lib X_train1;
          X_train2 = scaler_transform lib scaler X_train1;
          X_test2 = scaler_transform lib scaler X_test1
      in \<lparr> imputer_statistics = imputer, scaler_fitted = scaler,
            X_train_scaled = X_train2, X_test_scaled = X_test2 \<rparr>)"

text \<open>
  The calls that hand data to a learner are logged. A \<open>SearchCall\<close> records the slice
  passed to \<open>Training.hyperparameters\<close>, a \<open>RunModelCall\<close> the call of
  \<open>Training.run_model\<close>; the lists of naturals are the positions, in the table read from
  the file, of the rows handed over (for \<open>RunModelCall\<close>: the rows fitted on, then the rows
  scored on).
\<close>

datatype event =
  SearchCall "nat list" "real list list" "int list"
| RunModelCall model "nat list" "nat list"

text \<open>Lines 162--174, one iteration per fold of \<open>cv_outer.split(X_train)\<close>.\<close>

fun outer_loop ::
  "'sc sklearn \<Rightarrow> string \<Rightarrow> real list list \<Rightarrow> int list \<Rightarrow> nat list \<Rightarrow> (nat list \<times> nat list) list
     \<Rightarrow> pyval list dict \<Rightarrow> event list \<Rightarrow> (event list \<times> (py_error + pyval list dict)) option" where
  "outer_loop lib model_type X_train y_train train_rows [] best_hypers trace =
     Some (trace, Inr best_hypers)"
| "outer_loop lib model_type X_train y_train train_rows ((train_ix, test_ix) # folds) best_hypers trace =
     (case np_take X_train train_ix of Inl e \<Rightarrow> Some (trace, Inl e) | Inr X_train_val \<Rightarrow>
     (case np_take X_train test_ix of Inl e \<Rightarrow> Some (trace, Inl e) | Inr X_test_val \<Rightarrow>
     (case np_take y_train train_ix of Inl e \<Rightarrow> Some (trace, Inl e) | Inr y_train_val \<Rightarrow>
     (case np_take y_train test_ix of Inl e \<Rightarrow> Some (trace, Inl e) | Inr y_test_val \<Rightarrow>
       (let trace1 = trace @ [SearchCall (map (\<lambda>i. train_rows ! i) train_ix) X_train_val y_train_val]
        in case hyperparameters lib model_type X_train_val y_train_val of
             None \<Rightarrow> None
           | Some (Inl e) \<Rightarrow> Some (trace1, Inl e)
           | Some (Inr params) \<Rightarrow>
               outer_loop lib model_type X_train y_train train_rows folds
                 (log_params best_hypers params) trace1)))))"

text \<open>
  Lines 190--205. Each \<open>if\<close> compares \<open>model_type\<close> with a different name; when none
  matches, \<open>model\<close> is unbound at the call of \<open>run_model\<close>. The Gaussian process model
  reads its four entries of \<open>final_hypers\<close>, a missing one raises \<open>KeyError\<close>.
\<close>

definition make_model :: "string \<Rightarrow> pyval dict \<Rightarrow> py_error + model" where
  "make_model model_type final_hypers =
     (if model_type = ''svm'' then Inr (Model ''SVC'' final_hypers)
      else if model_type = ''random_forest'' then Inr (Model ''RandomForestClassifier'' final_hypers)
      else if model_type = ''knn'' then Inr (Model ''KNeighborsClassifier'' final_hypers)
      else if model_type = ''qda'' then Inr (Model ''QuadraticDiscriminantAnalysis'' final_hypers)
      else if model_type = ''gaussian_nb'' then Inr (Model ''GaussianNB'' final_hypers)
      else if model_type = ''gaussian_pc'' then
        (case dict_get final_hypers ''c'' of None \<Rightarrow> Inl KeyError | Some c \<Rightarrow>
        (case dict_get final_hypers ''l'' of None \<Rightarrow> Inl KeyError | Some l \<Rightarrow>
        (case dict_get final_hypers ''n'' of None \<Rightarrow> Inl KeyError | Some n \<Rightarrow>
        (case dict_get final_hypers ''max_iter_predict'' of None \<Rightarrow> Inl KeyError | Some m \<Rightarrow>
           Inr (GaussianProcessModel c l n m)))))
      else Inl UnboundLocalError)"

text \<open>
  What a completed run leaves behind: the returned tuple, the printed final configuration
  and the exported list of misclassified sessions.
\<close>

record ncv_result =
  out_X_train :: "real list list"
  out_y_train :: "int list"
  out_X_test :: "real list list"
  out_y_test :: "int list"
  out_model :: model
  out_final_hypers :: "pyval dict"
  out_missed :: "string list"

definition final_stage ::
  "'sc sklearn \<Rightarrow> string \<Rightarrow> split_data \<Rightarrow> 'sc preprocessed \<Rightarrow> event list \<Rightarrow> pyval list dict
     \<Rightarrow> event list \<times> (py_error + ncv_result)" where
  "final_stage lib model_type sp pre trace best_hypers =
     (case aggregate best_hypers of Inl e \<Rightarrow> (trace, Inl e) | Inr final_hypers \<Rightarrow>
     (case make_model model_type final_hypers of Inl e \<Rightarrow> (trace, Inl e) | Inr model \<Rightarrow>
       (let trace1 = trace @ [RunModelCall model (sp_train_rows sp) (sp_test_rows sp)]
        in case run_model lib model (X_train_scaled pre) (sp_y_train sp)
                  (X_test_scaled pre) (sp_y_test sp) (sp_sessions_test sp) of
             Inl e \<Rightarrow> (trace1, Inl e)
           | Inr (missed, acc) \<Rightarrow>
               (trace1, Inr \<lparr> out_X_train = X_train_scaled pre, out_y_train = sp_y_train sp,
                            out_X_test = X_test_scaled pre, out_y_test = sp_y_test sp,
                            out_model = model, out_final_hypers = final_hypers,
                            out_missed = missed \<rparr>))))"

definition nested_cross_validation ::
  "'sc sklearn \<Rightarrow> real option list list \<Rightarrow> int list \<Rightarrow> string list \<Rightarrow> string
     \<Rightarrow> (event list \<times> (py_error + ncv_result)) option" where
  "nested_cross_validation lib X y sessions model_type =
     (case split_stage lib X y sessions of Inl e \<Rightarrow> Some ([], Inl e) | Inr sp \<Rightarrow>
       (let pre = preprocess lib (sp_X_train sp) (sp_X_test sp)
        in case kfold_split lib 10 (length (X_train_scaled pre)) of
             Inl e \<Rightarrow> Some ([], Inl e)
           | Inr folds \<Rightarrow>
              (case outer_loop lib model_type (X_train_scaled pre) (sp_y_train sp)
                      (sp_train_rows sp) folds [] [] of
                 None \<Rightarrow> None
               | Some (trace, Inl e) \<Rightarrow> Some (trace, Inl e)
               | Some (trace, Inr best_hypers) \<Rightarrow>
                   Some (final_stage lib model_type sp pre trace best_hypers))))"

section \<open>\<open>BaseModel\<close>\<close>

record base_model =
  bm_X :: "real option list list"
  bm_y :: "int list"
  bm_sessions :: "string list"
  bm_class_weighting :: "pyval list"
  bm_model_type :: "string option"

text \<open>\<open>__init__\<close> of a model class: \<open>BaseModel.__init__\<close>, then the class sets its name.\<close>

definition model_init :: "csv_row list \<Rightarrow> string option \<Rightarrow> py_error + base_model" where
  "model_init df name =
     (case extract_data df of
        Inl e \<Rightarrow> Inl e
      | Inr (X, y, sessions, class_weighting) \<Rightarrow>
          Inr \<lparr> bm_X = X, bm_y = y, bm_sessions = sessions,
                 bm_class_weighting = class_weighting, bm_model_type = name \<rparr>)"

text \<open>The \<open>plot\<close> methods of \<open>RandomForest\<close> and \<open>KNearestNeighbors\<close> are \<open>pass\<close>.\<close>

definition plot :: "'sc sklearn \<Rightarrow> string \<Rightarrow> real list list \<Rightarrow> int list \<Rightarrow> model \<Rightarrow> py_error option" where
  "plot lib model_type X_train y_train model =
     (if model_type = ''random_forest'' \<or> model_type = ''knn'' then None
      else pca_plot lib model_type X_train y_train model)"

definition run :: "'sc sklearn \<Rightarrow> base_model \<Rightarrow> (event list \<times> (py_error + ncv_result)) option" where
  "run lib self =
     (case bm_model_type self of
        None \<Rightarrow> Some ([], Inl NotImplementedError)
      | Some model_type \<Rightarrow>
         (case nested_cross_validation lib (bm_X self) (bm_y self) (bm_sessions self) model_type of
            None \<Rightarrow> None
          | Some (trace, Inl e) \<Rightarrow> Some (trace, Inl e)
          | Some (trace, Inr r) \<Rightarrow>
             (case plot lib model_type (out_X_train r) (out_y_train r) (out_model r) of
                Some e \<Rightarrow> Some (trace, Inl e)
              | None \<Rightarrow> Some (trace, Inr r))))"

section \<open>Notions used in the statements\<close>

text \<open>How often a value occurs in a list, up to Python's equality.\<close>

definition py_count :: "pyval list \<Rightarrow> pyval \<Rightarrow> nat" where
  "py_count vs x = length (filter (py_eq x) vs)"

text \<open>
  The statistical mode with ties broken by first occurrence: the first element of the list
  that no element of the list occurs more often than.
\<close>

definition first_mode :: "pyval list \<Rightarrow> pyval option" where
  "first_mode vs = find (\<lambda>x. list_all (\<lambda>y. py_count vs y \<le> py_count vs x) vs) vs"

text \<open>The arithmetic mean of the numeric values of a list.\<close>

definition arithmetic_mean :: "pyval list \<Rightarrow> rat" where
  "arithmetic_mean vs = (\<Sum>v\<leftarrow>vs. the (num_val v)) / of_nat (length vs)"

definition py_key :: "pyval \<Rightarrow> rat + pyval" where
  "py_key a = (case num_val a of Some r \<Rightarrow> Inl r | None \<Rightarrow> Inr a)"




text \<open>\<open>isinstance(x, int)\<close>: the values that pass both guards of the aggregator.\<close>

fun is_py_int :: "pyval \<Rightarrow> bool" where
  "is_py_int (PInt _) = True"
| "is_py_int (PBool _) = True"
| "is_py_int (PFloat _) = False"
| "is_py_int (PStr _) = False"
| "is_py_int PNone = False"

text \<open>The value one entry of the log contributes to the final configuration, if any.\<close>

definition key_value :: "pyval list \<Rightarrow> pyval option" where
  "key_value value =
     (if list_all is_int_or_str value then first_mode value
      else if list_all is_float_or_int value then Some (PFloat (arithmetic_mean value))
      else None)"

text \<open>
  The log built by the outer loop has one entry per name and no empty list: these are the
  well-formedness conditions under which the aggregator is studied.
\<close>

definition log_wf :: "pyval list dict \<Rightarrow> bool" where
  "log_wf bh \<longleftrightarrow> distinct (map fst bh) \<and> list_all (\<lambda>kv. snd kv \<noteq> []) bh"

section \<open>A stand-in library\<close>

text \<open>
  A stand-in for the library, used to run the model on concrete data: the split takes the
  last fifth of the rows as test rows, fold \<open>i\<close> of \<open>k\<close> holds out the positions congruent
  to \<open>i\<close>, the standardiser is the identity, the search returns the first candidate of
  every grid entry, and every model predicts class \<open>0\<close>.
\<close>

definition stub_sklearn :: "unit sklearn" where
  "stub_sklearn =
     \<lparr> train_test_split = (\<lambda>n y. Inr ([0..<n - n div 5], [n - n div 5..<n])),
       scaler_fit = (\<lambda>X. ()),
       scaler_transform = (\<lambda>sc X. X),
       kfold_split = (\<lambda>k n. if n < k then Inl ValueError
                             else Inr (map (\<lambda>i. (filter (\<lambda>j. j mod k \<noteq> i) [0..<n],
                                                 filter (\<lambda>j. j mod k = i) [0..<n])) [0..<k])),
       grid_search_fit = (\<lambda>s X y. Inr (concat (map (\<lambda>(k, vs). map (Pair k) (take 1 vs)) (param_grid s)))),
       fit_predict = (\<lambda>m X_train y_train X_test. Inr (map (\<lambda>row. 0) X_test)),
       classification_report = (\<lambda>y_true y_pred. None),
       confusion_matrix = (\<lambda>y_true y_pred.
          Inr (map (\<lambda>t. map (\<lambda>p. int (length (filter (\<lambda>tp. tp = (t, p)) (zip y_true y_pred)))) [0, 1]) [0, 1])),
       roc_plot = (\<lambda>y_true y_pred. None),
       pca_plot = (\<lambda>name X y m. None) \<rparr>"

text \<open>A table of twelve sessions with one feature, one of them missing.\<close>

definition demo_X :: "real option list list" where
  "demo_X = [[Some 1], [Some 2], [None], [Some 4], [Some 5], [Some 6], [Some 7], [Some 8],
             [Some 9], [Some 10], [Some 11], [Some 12]]"

definition demo_y :: "int list" where
  "demo_y = [0, 1, 0, 1, 0, 1, 0, 1, 0, 1, 0, 1]"

definition demo_sessions :: "string list" where
  "demo_sessions = [''a'', ''b'', ''c'', ''d'', ''e'', ''f'', ''g'', ''h'', ''i'', ''j'', ''k'', ''l'']"


section \<open>Python equality and the counter\<close>

lemma py_eq_key: "py_eq a b \<longleftrightarrow> py_key a = py_key b"
  by (auto simp: py_eq_def py_key_def split: option.splits)

lemma py_eq_refl: "py_eq a a" by (simp add: py_eq_key)
lemma py_eq_sym: "py_eq a b \<Longrightarrow> py_eq b a" by (simp add: py_eq_key)
lemma py_eq_trans: "py_eq a b \<Longrightarrow> py_eq b c \<Longrightarrow> py_eq a c" by (simp add: py_eq_key)

lemma py_count_key: "py_count vs x = length (filter (\<lambda>y. py_key y = py_key x) vs)"
  unfolding py_count_def py_eq_key by (metis)

lemma foldl_counter_add_Cons:
  "foldl counter_add ((k, c) # cs) vs =
     (k, c + py_count vs k) # foldl counter_add cs (filter (\<lambda>y. \<not> py_eq k y) vs)"
  by (induction vs arbitrary: c cs) (simp_all add: py_count_def)

lemma Counter_Nil: "Counter [] = []"
  by (simp add: Counter_def)

lemma Counter_Cons:
  "Counter (x # vs) = (x, Suc (py_count vs x)) # Counter (filter (\<lambda>y. \<not> py_eq x y) vs)"
  by (simp add: Counter_def foldl_counter_add_Cons)

lemma py_max_count_char:
  "\<exists>pre post. best # items = pre @ py_max_count best items # post
      \<and> (\<forall>p\<in>set pre. snd p < snd (py_max_count best items))
      \<and> (\<forall>p\<in>set post. snd p \<le> snd (py_max_count best items))"
proof (induction items arbitrary: best)
  case Nil
  show ?case by (intro exI[of _ "[]"]) simp
next
  case (Cons x xs)
  show ?case
  proof (cases "snd best < snd x")
    case True
    define r where "r = py_max_count x xs"
    have res: "py_max_count best (x # xs) = r" using True by (simp add: r_def)
    from Cons[of x] obtain pre post where
      h: "x # xs = pre @ r # post" "\<forall>p\<in>set pre. snd p < snd r" "\<forall>p\<in>set post. snd p \<le> snd r"
      unfolding r_def by blast
    have "x \<in> set (pre @ r # post)" using h(1) by (metis list.set_intros(1))
    then have "snd x \<le> snd r" using h(2,3) by auto
    then have lt: "snd best < snd r" using True by simp
    have "best # x # xs = (best # pre) @ r # post" using h(1) by simp
    moreover have "\<forall>p\<in>set (best # pre). snd p < snd r" using lt h(2) by simp
    ultimately show ?thesis unfolding res using h(3) by blast
  next
    case False
    define r where "r = py_max_count best xs"
    have res: "py_max_count best (x # xs) = r" using False by (simp add: r_def)
    from Cons[of best] obtain pre post where
      h: "best # xs = pre @ r # post" "\<forall>p\<in>set pre. snd p < snd r" "\<forall>p\<in>set post. snd p \<le> snd r"
      unfolding r_def by blast
    show ?thesis
    proof (cases pre)
      case Nil
      then have e: "best = r" "xs = post" using h(1) by simp_all
      have "best # x # xs = [] @ r # (x # post)" using e by simp
      moreover have "\<forall>p\<in>set (x # post). snd p \<le> snd r" using False e(1) h(3) by simp
      ultimately show ?thesis unfolding res by (metis empty_iff list.set(1))
    next
      case (Cons b pre')
      then have e: "b = best" "xs = pre' @ r # post" using h(1) by simp_all
      have "snd best < snd r" using h(2) Cons e by simp
      then have "snd x < snd r" using False by simp
      then have "\<forall>p\<in>set (best # x # pre'). snd p < snd r" using h(2) Cons e by simp
      moreover have "best # x # xs = (best # x # pre') @ r # post" using e(2) by simp
      ultimately show ?thesis unfolding res using h(3) by blast
    qed
  qed
qed

lemma Counter_keys_subset: "set (map fst (Counter vs)) \<subseteq> set vs"
proof (induction "length vs" arbitrary: vs rule: less_induct)
  case less
  show ?case
  proof (cases vs)
    case Nil then show ?thesis by (simp add: Counter_Nil)
  next
    case (Cons x vs0)
    have "length (filter (\<lambda>y. \<not> py_eq x y) vs0) < length vs"
      using Cons by (simp add: le_imp_less_Suc)
    from less[OF this] show ?thesis using Cons by (auto simp: Counter_Cons)
  qed
qed

lemma py_count_filter_other:
  assumes "\<not> py_eq x k"
  shows "py_count (filter (\<lambda>y. \<not> py_eq x y) vs) k = py_count vs k"
proof -
  have "\<And>y. py_eq k y \<Longrightarrow> \<not> py_eq x y" using assms py_eq_trans py_eq_sym by blast
  then have "filter (py_eq k) (filter (\<lambda>y. \<not> py_eq x y) vs) = filter (py_eq k) vs"
    by (induction vs) auto
  then show ?thesis by (simp add: py_count_def)
qed

lemma Counter_cover:
  "y \<in> set vs \<Longrightarrow> \<exists>p\<in>set (Counter vs). py_eq (fst p) y \<and> snd p = py_count vs y"
proof (induction "length vs" arbitrary: vs rule: less_induct)
  case less
  show ?case
  proof (cases vs)
    case Nil then show ?thesis using less.prems by simp
  next
    case (Cons x vs0)
    let ?vs' = "filter (\<lambda>y. \<not> py_eq x y) vs0"
    show ?thesis
    proof (cases "py_eq x y")
      case True
      then have "py_count vs y = Suc (py_count vs0 x)"
        using Cons by (simp add: py_count_key py_eq_key)
      then show ?thesis using True Cons by (simp add: Counter_Cons)
    next
      case False
      then have "y \<noteq> x" using py_eq_refl by blast
      then have yin: "y \<in> set ?vs'" using less.prems Cons False by simp
      have "length ?vs' < length vs" using Cons by (simp add: le_imp_less_Suc)
      from less.hyps[OF this yin] obtain p where
        p: "p \<in> set (Counter ?vs')" "py_eq (fst p) y" "snd p = py_count ?vs' y" by blast
      have "py_count ?vs' y = py_count vs0 y" using False by (rule py_count_filter_other)
      also have "\<dots> = py_count vs y" using False Cons py_eq_sym by (auto simp: py_count_def)
      finally show ?thesis using p Cons by (auto simp: Counter_Cons)
    qed
  qed
qed

lemma filter_eq_append_ConsD:
  "filter Q ys = as @ k # bs \<Longrightarrow> \<exists>u w. ys = u @ k # w \<and> filter Q u = as"
proof (induction as arbitrary: ys)
  case Nil
  then obtain us vs where "ys = us @ k # vs" "\<forall>u\<in>set us. \<not> Q u"
    using filter_eq_ConsD[of Q ys k bs] by auto
  then show ?case by (intro exI[of _ us] exI[of _ vs]) simp
next
  case (Cons a as)
  then obtain us vs where h: "ys = us @ a # vs" "\<forall>u\<in>set us. \<not> Q u" "Q a" "as @ k # bs = filter Q vs"
    using filter_eq_ConsD[of Q ys a "as @ k # bs"] by auto
  from Cons.IH[OF h(4)[symmetric]] obtain u w where uw: "vs = u @ k # w" "filter Q u = as" by blast
  have "ys = (us @ a # u) @ k # w" using h(1) uw(1) by simp
  moreover have "filter Q (us @ a # u) = a # as" using h(2,3) uw(2) by simp
  ultimately show ?case by blast
qed

lemma find_first:
  "xs = pre @ x # post \<Longrightarrow> P x \<Longrightarrow> \<forall>y\<in>set pre. \<not> P y \<Longrightarrow> find P xs = Some x"
  by (induction pre arbitrary: xs) auto

lemma Counter_split:
  "Counter vs = pre @ (k, c) # post \<Longrightarrow>
     \<exists>vpre vpost. vs = vpre @ k # vpost
        \<and> (\<forall>y\<in>set vpre. \<exists>p\<in>set pre. snd p = py_count vs y)"
proof (induction "length vs" arbitrary: vs pre rule: less_induct)
  case less
  show ?case
  proof (cases vs)
    case Nil then show ?thesis using less.prems by (simp add: Counter_Nil)
  next
    case (Cons x vs0)
    let ?Q = "\<lambda>y. \<not> py_eq x y"
    let ?vs' = "filter ?Q vs0"
    have C: "(x, Suc (py_count vs0 x)) # Counter ?vs' = pre @ (k, c) # post"
      using less.prems Cons by (simp add: Counter_Cons)
    have cx: "py_count vs x = Suc (py_count vs0 x)"
      using Cons by (simp add: py_count_def py_eq_refl)
    have cnt_eq: "\<And>y. py_eq x y \<Longrightarrow> py_count vs y = py_count vs x"
      by (simp add: py_count_key py_eq_key)
    show ?thesis
    proof (cases pre)
      case Nil
      then have k: "k = x" using C by auto
      have "vs = [] @ k # vs0" using k Cons by simp
      then show ?thesis by (metis empty_iff list.set(1))
    next
      case (Cons p pre')
      then have p: "p = (x, Suc (py_count vs0 x))" and C': "Counter ?vs' = pre' @ (k, c) # post"
        using C by simp_all
      have len: "length ?vs' < length vs" using \<open>vs = x # vs0\<close> by (simp add: le_imp_less_Suc)
      from less.hyps[OF len C'] obtain vpre' vpost' where
        v: "?vs' = vpre' @ k # vpost'"
           "\<forall>y\<in>set vpre'. \<exists>p\<in>set pre'. snd p = py_count ?vs' y" by blast
      from filter_eq_append_ConsD[OF v(1)] obtain u w where
        uw: "vs0 = u @ k # w" "filter ?Q u = vpre'" by blast
      have "vs = (x # u) @ k # w" using uw(1) \<open>vs = x # vs0\<close> by simp
      moreover have "\<forall>y\<in>set (x # u). \<exists>q\<in>set pre. snd q = py_count vs y"
      proof
        fix y assume y: "y \<in> set (x # u)"
        show "\<exists>q\<in>set pre. snd q = py_count vs y"
        proof (cases "py_eq x y")
          case True
          then have "py_count vs y = snd p" using cnt_eq cx p by simp
          then show ?thesis using Cons by auto
        next
          case False
          then have "y \<noteq> x" using py_eq_refl by blast
          then have "y \<in> set vpre'" using y False uw(2) by auto
          then obtain q where q: "q \<in> set pre'" "snd q = py_count ?vs' y" using v(2) by blast
          have "py_count ?vs' y = py_count vs0 y" using False by (rule py_count_filter_other)
          also have "\<dots> = py_count vs y"
            using False \<open>vs = x # vs0\<close> py_eq_sym by (auto simp: py_count_def)
          finally show ?thesis using q Cons by auto
        qed
      qed
      ultimately show ?thesis by blast
    qed
  qed
qed

lemma Counter_count:
  "(k, c) \<in> set (Counter vs) \<Longrightarrow> c = py_count vs k"
proof (induction "length vs" arbitrary: vs rule: less_induct)
  case less
  show ?case
  proof (cases vs)
    case Nil then show ?thesis using less.prems by (simp add: Counter_Nil)
  next
    case (Cons x vs0)
    let ?vs' = "filter (\<lambda>y. \<not> py_eq x y) vs0"
    show ?thesis
    proof (cases "(k, c) \<in> set (Counter ?vs')")
      case True
      have len: "length ?vs' < length vs" using Cons by (simp add: le_imp_less_Suc)
      have c: "c = py_count ?vs' k" using less.hyps[OF len True] .
      have "k \<in> set ?vs'" using True Counter_keys_subset[of ?vs'] by force
      then have nk: "\<not> py_eq x k" by simp
      have "py_count ?vs' k = py_count vs0 k" using nk by (rule py_count_filter_other)
      also have "\<dots> = py_count vs k" using nk Cons py_eq_sym by (auto simp: py_count_def)
      finally show ?thesis using c by simp
    next
      case False
      then have "k = x" "c = Suc (py_count vs0 x)" using less.prems Cons by (auto simp: Counter_Cons)
      then show ?thesis using Cons by (simp add: py_count_def py_eq_refl)
    qed
  qed
qed

lemma most_common1_first_mode:
  assumes "vs \<noteq> []"
  shows "\<exists>k. most_common1 (Counter vs) = [(k, py_count vs k)] \<and> first_mode vs = Some k"
proof -
  obtain x vs0 where vs: "vs = x # vs0" using assms by (cases vs) auto
  define best where "best = (x, Suc (py_count vs0 x))"
  define items where "items = Counter (filter (\<lambda>y. \<not> py_eq x y) vs0)"
  define r where "r = py_max_count best items"
  have Cv: "Counter vs = best # items" by (simp add: vs Counter_Cons best_def items_def)
  then have mc: "most_common1 (Counter vs) = [r]" by (simp add: most_common1_def r_def)
  obtain pre post where h: "best # items = pre @ r # post"
      "\<forall>p\<in>set pre. snd p < snd r" "\<forall>p\<in>set post. snd p \<le> snd r"
    using py_max_count_char[of best items] unfolding r_def by blast
  obtain k c where r: "r = (k, c)" by (cases r)
  have Cs: "Counter vs = pre @ (k, c) # post" using Cv h(1) r by simp
  then have "(k, c) \<in> set (Counter vs)" by simp
  then have c: "c = py_count vs k" by (rule Counter_count)
  from Counter_split[OF Cs] obtain vpre vpost where
    v: "vs = vpre @ k # vpost" "\<forall>y\<in>set vpre. \<exists>p\<in>set pre. snd p = py_count vs y" by blast
  have le: "\<forall>y\<in>set vs. py_count vs y \<le> py_count vs k"
  proof
    fix y assume "y \<in> set vs"
    from Counter_cover[OF this] obtain p where p: "p \<in> set (Counter vs)" "snd p = py_count vs y" by blast
    then have "p \<in> set pre \<or> p = r \<or> p \<in> set post" using Cs r by auto
    then have "snd p \<le> snd r" using h(2,3) by auto
    then show "py_count vs y \<le> py_count vs k" using p(2) r c by simp
  qed
  have lt: "\<forall>y\<in>set vpre. py_count vs y < py_count vs k"
    using v(2) h(2) r c by fastforce
  have kin: "k \<in> set vs" using v(1) by simp
  let ?P = "\<lambda>x. list_all (\<lambda>y. py_count vs y \<le> py_count vs x) vs"
  have "?P k" using le by (simp add: list_all_iff)
  moreover have "\<forall>y\<in>set vpre. \<not> ?P y" using lt kin by (auto simp: list_all_iff not_le)
  ultimately have "find ?P vs = Some k" using v(1) by (rule find_first[rotated 1]) 
  then show ?thesis using mc r c by (simp add: first_mode_def)
qed

section \<open>The aggregation loop\<close>

lemma dict_get_set: "dict_get (dict_set d k v) k' = (if k' = k then Some v else dict_get d k')"
  by (induction d) auto

lemma dict_set_set: "dict_set (dict_set d k a) k b = dict_set d k b"
  by (induction d) auto

lemma num_val_numeric:
  "is_float_or_int v \<Longrightarrow> (case num_val v of Some r \<Rightarrow> r | None \<Rightarrow> 0) = the (num_val v)"
  by (cases v) auto

lemma np_mean_arithmetic_mean:
  "list_all is_float_or_int vs \<Longrightarrow> np_mean vs = PFloat (arithmetic_mean vs)"
proof -
  assume a: "list_all is_float_or_int vs"
  have "map (\<lambda>x. case num_val x of Some r \<Rightarrow> r | None \<Rightarrow> 0) vs = map (\<lambda>v. the (num_val v)) vs"
    using a by (induction vs) (auto simp: num_val_numeric)
  then have "PFloat (sum_list (map (\<lambda>x. case num_val x of Some r \<Rightarrow> r | None \<Rightarrow> 0) vs) / of_nat (length vs))
           = PFloat (sum_list (map (\<lambda>v. the (num_val v)) vs) / of_nat (length vs))"
    by (rule arg_cong)
  then show ?thesis unfolding np_mean_def arithmetic_mean_def .
qed

lemma aggregate_key_result:
  assumes "vs \<noteq> []"
  shows "aggregate_key fh key vs =
           Inr (case key_value vs of None \<Rightarrow> fh | Some a \<Rightarrow> dict_set fh key a)"
proof -
  obtain k where k: "most_common1 (Counter vs) = [(k, py_count vs k)]" "first_mode vs = Some k"
    using most_common1_first_mode[OF assms] by blast
  show ?thesis
    using k by (simp add: aggregate_key_def key_value_def Let_def np_mean_arithmetic_mean dict_set_set)
qed

lemma aggregate_loop_result:
  assumes "distinct (map fst bh)" and "\<forall>v\<in>snd ` set bh. v \<noteq> []"
  shows "\<exists>fh'. aggregate_loop fh bh = Inr fh' \<and>
           (\<forall>k. dict_get fh' k =
              (case map_of bh k of
                 None \<Rightarrow> dict_get fh k
               | Some v \<Rightarrow> (case key_value v of None \<Rightarrow> dict_get fh k | Some a \<Rightarrow> Some a)))"
  using assms
proof (induction bh arbitrary: fh)
  case Nil
  show ?case by simp
next
  case (Cons kv bh)
  obtain key vs where kv: "kv = (key, vs)" by (cases kv)
  have ne: "vs \<noteq> []" using Cons.prems(2) kv by simp
  define fh1 where "fh1 = (case key_value vs of None \<Rightarrow> fh | Some a \<Rightarrow> dict_set fh key a)"
  have step: "aggregate_key fh key vs = Inr fh1"
    using aggregate_key_result[OF ne] by (simp add: fh1_def)
  have d: "distinct (map fst bh)" and n: "\<forall>v\<in>snd ` set bh. v \<noteq> []" and notin: "key \<notin> fst ` set bh"
    using Cons.prems kv by auto
  from Cons.IH[OF d n, of fh1] obtain fh' where
    r: "aggregate_loop fh1 bh = Inr fh'"
       "\<forall>k. dict_get fh' k = (case map_of bh k of None \<Rightarrow> dict_get fh1 k
              | Some v \<Rightarrow> (case key_value v of None \<Rightarrow> dict_get fh1 k | Some a \<Rightarrow> Some a))"
    by blast
  have m: "map_of bh key = None" using notin by (simp add: map_of_eq_None_iff)
  have "\<forall>k. dict_get fh' k =
              (case map_of (kv # bh) k of
                 None \<Rightarrow> dict_get fh k
               | Some v \<Rightarrow> (case key_value v of None \<Rightarrow> dict_get fh k | Some a \<Rightarrow> Some a))"
  proof
    fix k
    show "dict_get fh' k =
              (case map_of (kv # bh) k of
                 None \<Rightarrow> dict_get fh k
               | Some v \<Rightarrow> (case key_value v of None \<Rightarrow> dict_get fh k | Some a \<Rightarrow> Some a))"
    proof (cases "k = key")
      case True
      then show ?thesis using r(2) m kv by (simp add: fh1_def dict_get_set split: option.splits)
    next
      case False
      then have "dict_get fh1 k = dict_get fh k"
        by (simp add: fh1_def dict_get_set split: option.splits)
      then show ?thesis using r(2) False kv by (simp split: option.splits)
    qed
  qed
  then show ?case using step r(1) kv by simp
qed

lemma aggregate_result:
  assumes "distinct (map fst bh)" and "\<forall>v\<in>snd ` set bh. v \<noteq> []"
  shows "\<exists>fh. aggregate bh = Inr fh \<and> (\<forall>k. dict_get fh k = Option.bind (map_of bh k) key_value)"
proof -
  from aggregate_loop_result[OF assms, of "[]"] obtain fh where
    "aggregate_loop [] bh = Inr fh"
    "\<forall>k. dict_get fh k = (case map_of bh k of None \<Rightarrow> dict_get [] k
              | Some v \<Rightarrow> (case key_value v of None \<Rightarrow> dict_get [] k | Some a \<Rightarrow> Some a))"
    by blast
  then show ?thesis by (auto simp: aggregate_def split: option.splits)
qed

lemma is_py_int_guards: "is_py_int v \<Longrightarrow> is_float_or_int v \<and> is_int_or_str v"
  by (cases v) auto

lemma first_mode_in_set: "first_mode vs = Some m \<Longrightarrow> m \<in> set vs"
  by (auto simp: first_mode_def find_Some_iff)

lemma map_of_entry: "distinct (map fst bh) \<Longrightarrow> (k, v) \<in> set bh \<Longrightarrow> map_of bh k = Some v"
  by simp

section \<open>The log built by the outer loop\<close>

lemma dict_get_map_of: "dict_get d k = map_of d k"
  by (induction d) auto

lemma dict_get_None_iff: "dict_get d k = None \<longleftrightarrow> k \<notin> fst ` set d"
  by (simp add: dict_get_map_of map_of_eq_None_iff)

lemma dict_set_keys:
  "map fst (dict_set d k v) = (if k \<in> fst ` set d then map fst d else map fst d @ [k])"
proof (induction d)
  case Nil
  show ?case by simp
next
  case (Cons kv d)
  obtain k' v' where kv: "kv = (k', v')" by (cases kv)
  show ?case
  proof (cases "k' = k")
    case True
    then show ?thesis using kv by simp
  next
    case False
    then have "k \<in> fst ` set (kv # d) \<longleftrightarrow> k \<in> fst ` set d" using kv by auto
    then show ?thesis using Cons False kv by simp
  qed
qed

lemma dict_set_values: "snd ` set (dict_set d k v) \<subseteq> insert v (snd ` set d)"
proof (induction d)
  case Nil
  show ?case by simp
next
  case (Cons kv d)
  obtain k' v' where kv: "kv = (k', v')" by (cases kv)
  show ?case
  proof (cases "k' = k")
    case True
    then show ?thesis using kv by auto
  next
    case False
    then have "snd ` set (dict_set (kv # d) k v) = insert v' (snd ` set (dict_set d k v))"
      using kv by simp
    then show ?thesis using Cons kv by auto
  qed
qed

lemma dict_set_wf:
  assumes "log_wf bh" and "v \<noteq> []"
  shows "log_wf (dict_set bh k v)"
proof -
  have "distinct (map fst (dict_set bh k v))"
    using assms(1) by (auto simp: dict_set_keys log_wf_def)
  moreover have "\<forall>x\<in>snd ` set (dict_set bh k v). x \<noteq> []"
  proof
    fix x assume "x \<in> snd ` set (dict_set bh k v)"
    then have "x = v \<or> x \<in> snd ` set bh" using dict_set_values[of bh k v] by blast
    then show "x \<noteq> []" using assms by (auto simp: log_wf_def list_all_iff)
  qed
  ultimately show ?thesis by (auto simp: log_wf_def list_all_iff)
qed

lemma log_entry_wf: "log_wf bh \<Longrightarrow> log_wf (log_entry bh k x)"
proof -
  assume wf: "log_wf bh"
  show ?thesis
  proof (cases "dict_get bh k")
    case None
    then have "log_entry bh k x = dict_set (dict_set bh k []) k [x]"
      by (simp add: log_entry_def dict_get_set)
    then show ?thesis using dict_set_wf[OF wf, of "[x]" k] by (simp add: dict_set_set)
  next
    case (Some l)
    then have "log_entry bh k x = dict_set bh k (l @ [x])"
      by (simp add: log_entry_def)
    then show ?thesis using dict_set_wf[OF wf, of "l @ [x]" k] by simp
  qed
qed

lemma log_params_wf: "log_wf bh \<Longrightarrow> log_wf (log_params bh params)"
  by (induction params arbitrary: bh) (auto simp: log_entry_wf)

lemma outer_loop_log_wf:
  "log_wf bh \<Longrightarrow>
   outer_loop lib model_type X_train y_train train_rows folds bh trace = Some (trace', Inr bh')
   \<Longrightarrow> log_wf bh'"
proof (induction folds arbitrary: bh trace)
  case Nil
  then show ?case by simp
next
  case (Cons fl folds)
  obtain train_ix test_ix where f: "fl = (train_ix, test_ix)" by (cases fl)
  from Cons.prems(2) f obtain params tr1 where
    "outer_loop lib model_type X_train y_train train_rows folds (log_params bh params) tr1
       = Some (trace', Inr bh')"
    by (auto simp: Let_def split: sum.splits option.splits)
  then show ?case using Cons.IH[OF log_params_wf[OF Cons.prems(1)]] by blast
qed

lemma log_wf_aggregate:
  assumes "log_wf bh"
  shows "\<exists>fh. aggregate bh = Inr fh"
proof -
  have "distinct (map fst bh)" and "\<forall>v\<in>snd ` set bh. v \<noteq> []"
    using assms by (auto simp: log_wf_def list_all_iff)
  from aggregate_result[OF this] show ?thesis by blast
qed

section \<open>Claims about the aggregator\<close>

text \<open>
  C1. In a well-formed log (one entry per name, no empty list), a parameter whose per-fold
  values are all Python ints passes both guards: the mean rule stores the arithmetic mean
  under the name, the mode rule then stores the mode under the same name. The final
  configuration holds the mode (the first value of maximal frequency), which is an int and
  so not the mean that was stored first.
\<close>

theorem all_integer_parameter_gets_mode:
  assumes "distinct (map fst best_hypers)"
    and "\<forall>v\<in>snd ` set best_hypers. v \<noteq> []"
    and "(key, vs) \<in> set best_hypers"
    and "list_all is_py_int vs"
  shows "\<exists>m final_hypers.
           first_mode vs = Some m
         \<and> (\<forall>fh. aggregate_key fh key vs
                  = Inr (dict_set (dict_set fh key (PFloat (arithmetic_mean vs))) key m))
         \<and> aggregate best_hypers = Inr final_hypers
         \<and> dict_get final_hypers key = Some m
         \<and> m \<noteq> PFloat (arithmetic_mean vs)"
proof -
  have ne: "vs \<noteq> []" using assms(2,3) by force
  have num: "list_all is_float_or_int vs" and dis: "list_all is_int_or_str vs"
    using assms(4) by (auto simp: list_all_iff dest: is_py_int_guards)
  obtain m where m: "most_common1 (Counter vs) = [(m, py_count vs m)]" "first_mode vs = Some m"
    using most_common1_first_mode[OF ne] by blast
  have "is_py_int m" using first_mode_in_set[OF m(2)] assms(4) by (simp add: list_all_iff)
  then have neq: "m \<noteq> PFloat (arithmetic_mean vs)" by auto
  have step: "\<forall>fh. aggregate_key fh key vs
                  = Inr (dict_set (dict_set fh key (PFloat (arithmetic_mean vs))) key m)"
    using num dis m(1) by (simp add: aggregate_key_def Let_def np_mean_arithmetic_mean)
  obtain fh where fh: "aggregate best_hypers = Inr fh"
      "\<forall>k. dict_get fh k = Option.bind (map_of best_hypers k) key_value"
    using aggregate_result[OF assms(1,2)] by blast
  have "dict_get fh key = Some m"
    using fh(2) map_of_entry[OF assms(1,3)] dis m(2) by (simp add: key_value_def)
  then show ?thesis using m(2) step fh(1) neq by blast
qed

theorem all_integer_parameter_gets_mode_witness:
  "distinct (map fst [(''degree'', [PInt 3, PInt 2, PInt 2, PInt 3]), (''C'', [PFloat (1/2), PFloat (1/4), PFloat (1/2), PFloat 1])])
   \<and> (\<exists>m final_hypers.
           first_mode [PInt 3, PInt 2, PInt 2, PInt 3] = Some m
         \<and> (\<forall>fh. aggregate_key fh ''degree'' [PInt 3, PInt 2, PInt 2, PInt 3]
                  = Inr (dict_set (dict_set fh ''degree'' (PFloat (arithmetic_mean [PInt 3, PInt 2, PInt 2, PInt 3]))) ''degree'' m))
         \<and> aggregate [(''degree'', [PInt 3, PInt 2, PInt 2, PInt 3]), (''C'', [PFloat (1/2), PFloat (1/4), PFloat (1/2), PFloat 1])] = Inr final_hypers
         \<and> dict_get final_hypers ''degree'' = Some m
         \<and> m \<noteq> PFloat (arithmetic_mean [PInt 3, PInt 2, PInt 2, PInt 3]))"
  using all_integer_parameter_gets_mode[of
      "[(''degree'', [PInt 3, PInt 2, PInt 2, PInt 3]), (''C'', [PFloat (1/2), PFloat (1/4), PFloat (1/2), PFloat 1])]"
      "''degree''" "[PInt 3, PInt 2, PInt 2, PInt 3]"]
  by simp

text \<open>
  C2, as stated, fails for a parameter whose values are all ints: they are numeric, yet the
  aggregated value of \<open>[1, 1, 2]\<close> is the mode \<open>1\<close> and not the mean \<open>4/3\<close>.
\<close>

theorem numeric_mean_rule_counterexample:
  "list_all is_float_or_int [PInt 1, PInt 1, PInt 2]
   \<and> arithmetic_mean [PInt 1, PInt 1, PInt 2] = 4 / 3
   \<and> aggregate [(''n_neighbors'', [PInt 1, PInt 1, PInt 2])] = Inr [(''n_neighbors'', PInt 1)]
   \<and> \<not> py_eq (PInt 1) (PFloat (4 / 3))"
  by (simp add: arithmetic_mean_def aggregate_def aggregate_key_def np_mean_def Counter_def
        most_common1_def py_eq_def)

text \<open>
  C2, amended. In a well-formed log the aggregation returns, and for every entry: if all
  values are numeric and not all of them are int-or-string (a float occurs), the aggregated
  value is the arithmetic mean; if all values are int-or-string, it is the most frequent
  value, the first one in the list among those of maximal frequency. The log
  \<open>{"C": [0.1, 0.3, 0.2]}\<close> gives \<open>0.2\<close> (in exact arithmetic) and
  \<open>{"kernel": ["rbf", "rbf", "linear"]}\<close> gives \<open>"rbf"\<close>.
\<close>

theorem aggregation_by_value_type:
  assumes "distinct (map fst best_hypers)"
    and "\<forall>v\<in>snd ` set best_hypers. v \<noteq> []"
    and "(key, vs) \<in> set best_hypers"
  shows "(\<exists>final_hypers. aggregate best_hypers = Inr final_hypers
            \<and> (list_all is_float_or_int vs \<and> \<not> list_all is_int_or_str vs
                 \<longrightarrow> dict_get final_hypers key = Some (PFloat (arithmetic_mean vs)))
            \<and> (list_all is_int_or_str vs
                 \<longrightarrow> dict_get final_hypers key = first_mode vs \<and> first_mode vs \<noteq> None))
       \<and> aggregate [(''C'', [PFloat (1 / 10), PFloat (3 / 10), PFloat (2 / 10)])]
            = Inr [(''C'', PFloat (2 / 10))]
       \<and> aggregate [(''kernel'', [PStr ''rbf'', PStr ''rbf'', PStr ''linear''])]
            = Inr [(''kernel'', PStr ''rbf'')]"
proof -
  have ne: "vs \<noteq> []" using assms(2,3) by force
  obtain m where m: "first_mode vs = Some m"
    using most_common1_first_mode[OF ne] by blast
  obtain fh where fh: "aggregate best_hypers = Inr fh"
      "\<forall>k. dict_get fh k = Option.bind (map_of best_hypers k) key_value"
    using aggregate_result[OF assms(1,2)] by blast
  have k: "dict_get fh key = key_value vs"
    using fh(2) map_of_entry[OF assms(1,3)] by simp
  have general: "\<exists>final_hypers. aggregate best_hypers = Inr final_hypers
            \<and> (list_all is_float_or_int vs \<and> \<not> list_all is_int_or_str vs
                 \<longrightarrow> dict_get final_hypers key = Some (PFloat (arithmetic_mean vs)))
            \<and> (list_all is_int_or_str vs
                 \<longrightarrow> dict_get final_hypers key = first_mode vs \<and> first_mode vs \<noteq> None)"
    using fh(1) k m by (auto simp: key_value_def)
  have c: "aggregate [(''C'', [PFloat (1 / 10), PFloat (3 / 10), PFloat (2 / 10)])]
            = Inr [(''C'', PFloat (2 / 10))]"
    by (simp add: aggregate_def aggregate_key_def np_mean_def)
  have kern: "aggregate [(''kernel'', [PStr ''rbf'', PStr ''rbf'', PStr ''linear''])]
            = Inr [(''kernel'', PStr ''rbf'')]"
    by (simp add: aggregate_def aggregate_key_def Counter_def most_common1_def py_eq_def)
  show ?thesis using general c kern by blast
qed

theorem aggregation_by_value_type_witness:
  "(list_all is_float_or_int [PFloat (1 / 10), PFloat (3 / 10), PFloat (2 / 10)]
      \<and> \<not> list_all is_int_or_str [PFloat (1 / 10), PFloat (3 / 10), PFloat (2 / 10)]
      \<and> (\<exists>final_hypers.
            aggregate [(''C'', [PFloat (1 / 10), PFloat (3 / 10), PFloat (2 / 10)]),
                       (''kernel'', [PStr ''rbf'', PStr ''rbf'', PStr ''linear''])] = Inr final_hypers
          \<and> dict_get final_hypers ''C''
              = Some (PFloat (arithmetic_mean [PFloat (1 / 10), PFloat (3 / 10), PFloat (2 / 10)]))))
   \<and> (list_all is_int_or_str [PStr ''rbf'', PStr ''rbf'', PStr ''linear'']
      \<and> (\<exists>final_hypers.
            aggregate [(''C'', [PFloat (1 / 10), PFloat (3 / 10), PFloat (2 / 10)]),
                       (''kernel'', [PStr ''rbf'', PStr ''rbf'', PStr ''linear''])] = Inr final_hypers
          \<and> dict_get final_hypers ''kernel'' = first_mode [PStr ''rbf'', PStr ''rbf'', PStr ''linear'']
          \<and> first_mode [PStr ''rbf'', PStr ''rbf'', PStr ''linear''] \<noteq> None))"
  using aggregation_by_value_type[of
          "[(''C'', [PFloat (1 / 10), PFloat (3 / 10), PFloat (2 / 10)]),
            (''kernel'', [PStr ''rbf'', PStr ''rbf'', PStr ''linear''])]"
          "''C''" "[PFloat (1 / 10), PFloat (3 / 10), PFloat (2 / 10)]"]
        aggregation_by_value_type[of
          "[(''C'', [PFloat (1 / 10), PFloat (3 / 10), PFloat (2 / 10)]),
            (''kernel'', [PStr ''rbf'', PStr ''rbf'', PStr ''linear''])]"
          "''kernel''" "[PStr ''rbf'', PStr ''rbf'', PStr ''linear'']"]
  by simp

text \<open>
  C9. In a well-formed log, an entry whose values pass neither guard (not all numeric and
  not all int-or-string) leaves \<open>final_hypers\<close> as it is and raises nothing; the
  aggregation returns and the final configuration has no entry under that name.
\<close>

theorem unmatched_key_is_omitted:
  assumes "distinct (map fst best_hypers)"
    and "\<forall>v\<in>snd ` set best_hypers. v \<noteq> []"
    and "(key, vs) \<in> set best_hypers"
    and "\<not> list_all is_float_or_int vs"
    and "\<not> list_all is_int_or_str vs"
  shows "(\<forall>fh. aggregate_key fh key vs = Inr fh)
       \<and> (\<exists>final_hypers. aggregate best_hypers = Inr final_hypers \<and> dict_get final_hypers key = None)"
proof -
  have step: "\<forall>fh. aggregate_key fh key vs = Inr fh"
    using assms(4,5) by (simp add: aggregate_key_def)
  obtain fh where fh: "aggregate best_hypers = Inr fh"
      "\<forall>k. dict_get fh k = Option.bind (map_of best_hypers k) key_value"
    using aggregate_result[OF assms(1,2)] by blast
  have "dict_get fh key = None"
    using fh(2) map_of_entry[OF assms(1,3)] assms(4,5) by (simp add: key_value_def)
  then show ?thesis using step fh(1) by blast
qed

theorem unmatched_key_is_omitted_witness:
  "distinct (map fst [(''max_depth'', [PNone, PNone]), (''mixed'', [PFloat (1 / 2), PStr ''rbf''])])
   \<and> \<not> list_all is_float_or_int [PFloat (1 / 2), PStr ''rbf'']
   \<and> \<not> list_all is_int_or_str [PFloat (1 / 2), PStr ''rbf'']
   \<and> (\<forall>fh. aggregate_key fh ''mixed'' [PFloat (1 / 2), PStr ''rbf''] = Inr fh)
   \<and> (\<exists>final_hypers.
          aggregate [(''max_depth'', [PNone, PNone]), (''mixed'', [PFloat (1 / 2), PStr ''rbf''])]
            = Inr final_hypers
        \<and> dict_get final_hypers ''mixed'' = None)"
  using unmatched_key_is_omitted[of
          "[(''max_depth'', [PNone, PNone]), (''mixed'', [PFloat (1 / 2), PStr ''rbf''])]"
          "''mixed''" "[PFloat (1 / 2), PStr ''rbf'']"]
  by simp


section \<open>Claims about \<open>Analysis.confusion\<close>\<close>

text \<open>
  C5. For the matrix \<open>[[TP, FP], [FN, TN]]\<close>, that is with \<open>TP\<close> read from cell \<open>[0,0]\<close>,
  \<open>TN\<close> from \<open>[1,1]\<close>, \<open>FP\<close> from \<open>[0,1]\<close> and \<open>FN\<close> from \<open>[1,0]\<close>, and with no zero
  denominator, \<open>Analysis.confusion\<close> computes accuracy \<open>(TP+TN)/(TP+TN+FP+FN)\<close>, error
  \<open>(FP+FN)/(TP+TN+FP+FN)\<close>, precision \<open>TP/(TP+FP)\<close>, recall and true positive rate
  \<open>TP/(TP+FN)\<close>, false positive rate \<open>FP/(FP+TN)\<close> and specificity \<open>TN/(TN+FP)\<close>; for
  \<open>TP=50, TN=30, FP=10, FN=10\<close> these are 0.8, 0.2, 50/60, 50/60, 50/60, 10/40 and 30/40.
\<close>

theorem confusion_statistics:
  assumes "TP + TN + FP + FN \<noteq> 0" and "TP + FP \<noteq> 0" and "TP + FN \<noteq> 0" and "FP + TN \<noteq> 0"
  shows "confusion [[TP, FP], [FN, TN]] =
           Inr \<lparr> model_accuracy = Some (of_int (TP + TN) / of_int (TP + TN + FP + FN)),
                  model_error = Some (of_int (FP + FN) / of_int (TP + TN + FP + FN)),
                  precision = Some (of_int TP / of_int (TP + FP)),
                  recall = Some (of_int TP / of_int (TP + FN)),
                  true_positive_rate = Some (of_int TP / of_int (TP + FN)),
                  false_positive_rate = Some (of_int FP / of_int (FP + TN)),
                  specificity = Some (of_int TN / of_int (TN + FP)) \<rparr>
       \<and> confusion [[50, 10], [10, 30]] =
           Inr \<lparr> model_accuracy = Some (8 / 10), model_error = Some (2 / 10),
                  precision = Some (50 / 60), recall = Some (50 / 60),
                  true_positive_rate = Some (50 / 60), false_positive_rate = Some (10 / 40),
                  specificity = Some (30 / 40) \<rparr>"
proof -
  have "TN + FP \<noteq> 0" using assms(4) by (simp add: add.commute)
  then have g: "confusion [[TP, FP], [FN, TN]] =
           Inr \<lparr> model_accuracy = Some (of_int (TP + TN) / of_int (TP + TN + FP + FN)),
                  model_error = Some (of_int (FP + FN) / of_int (TP + TN + FP + FN)),
                  precision = Some (of_int TP / of_int (TP + FP)),
                  recall = Some (of_int TP / of_int (TP + FN)),
                  true_positive_rate = Some (of_int TP / of_int (TP + FN)),
                  false_positive_rate = Some (of_int FP / of_int (FP + TN)),
                  specificity = Some (of_int TN / of_int (TN + FP)) \<rparr>"
    using assms by (simp add: confusion_def cm_at_def np_div_def)
  have e: "confusion [[50, 10], [10, 30]] =
           Inr \<lparr> model_accuracy = Some (8 / 10), model_error = Some (2 / 10),
                  precision = Some (50 / 60), recall = Some (50 / 60),
                  true_positive_rate = Some (50 / 60), false_positive_rate = Some (10 / 40),
                  specificity = Some (30 / 40) \<rparr>"
    by (simp add: confusion_def cm_at_def np_div_def)
  show ?thesis using g e by (rule conjI)
qed

theorem confusion_statistics_witness:
  "(50::int) + 30 + 10 + 10 \<noteq> 0 \<and> (50::int) + 10 \<noteq> 0 \<and> (10::int) + 30 \<noteq> 0
   \<and> confusion [[50, 10], [10, 30]] =
           Inr \<lparr> model_accuracy = Some (4 / 5), model_error = Some (1 / 5),
                  precision = Some (5 / 6), recall = Some (5 / 6),
                  true_positive_rate = Some (5 / 6), false_positive_rate = Some (1 / 4),
                  specificity = Some (3 / 4) \<rparr>"
  using confusion_statistics[of 50 30 10 10] by simp

section \<open>Claims about \<open>Processing\<close>\<close>

lemma frange_steps:
  "0 < step \<Longrightarrow> frange start stop step =
     Some (map (\<lambda>k. start + of_nat k * step) [0..<nat \<lceil>(stop - start) / step\<rceil>])"
proof (induction "nat \<lceil>(stop - start) / step\<rceil>" arbitrary: start)
  case 0
  then have "(stop - start) / step \<le> 0" by simp
  then have "stop - start \<le> 0" using 0(2) by (simp add: divide_le_0_iff)
  then show ?case using 0 by (subst frange.simps) simp
next
  case (Suc n)
  then have pos: "0 < (stop - start) / step" by linarith
  then have lt: "start < stop" using Suc(3) by (simp add: zero_less_divide_iff)
  have "(stop - (start + step)) / step = (stop - start) / step - 1"
    using Suc(3) by (simp add: field_simps)
  then have "nat \<lceil>(stop - (start + step)) / step\<rceil> = n" using Suc(2) by simp
  from Suc(1)[OF this[symmetric] Suc(3)] this
  have IH: "frange (start + step) stop step = Some (map (\<lambda>k. start + step + of_nat k * step) [0..<n])"
    by simp
  have "map (\<lambda>k. start + of_nat k * step) [0..<Suc n] = start # map (\<lambda>k. start + step + of_nat k * step) [0..<n]"
  proof -
    have "[0..<Suc n] = 0 # map Suc [0..<n]"
      by (simp add: upt_conv_Cons map_Suc_upt del: upt_Suc)
    then show ?thesis by (simp add: algebra_simps del: upt_Suc)
  qed
  then show ?case using lt IH Suc(2) by (subst frange.simps) simp
qed

lemma frange_unit: "frange 0 1 (1 / 10) = Some [0, 1 / 10, 2 / 10, 3 / 10, 4 / 10, 5 / 10, 6 / 10, 7 / 10, 8 / 10, 9 / 10]"
  by (simp add: frange.simps)

lemma frange_gamma: "frange (1 / 50) (1 / 20) (1 / 1000) =
   Some (map (\<lambda>k. 1 / 50 + of_nat k * (1 / 1000)) [0..<30])"
  using frange_steps[of "1 / 1000" "1 / 50" "1 / 20"] by simp




text \<open>
  C7. For a table in which both labels 0 and 1 occur, \<open>Processing.extract_data\<close> returns
  the class weighting \<open>[1, count(class 0) / count(class 1)]\<close>, where the count of a class is
  the number of rows with that label (and the count of class 1 is not zero).
\<close>

theorem class_weighting_pair:
  assumes "0 \<in> State ` set df" and "1 \<in> State ` set df"
  shows "extract_data df =
           Inr (map features df, map State df, map Filename df,
                [PInt 1, PFloat (of_nat (length (filter (\<lambda>r. State r = 0) df))
                                 / of_nat (length (filter (\<lambda>r. State r = 1) df)))])
       \<and> length (filter (\<lambda>r. State r = 1) df) \<noteq> 0"
proof -
  have c: "\<And>c. count_list (map State df) c = length (filter (\<lambda>r. State r = c) df)"
    by (induction df) auto
  have "filter (\<lambda>r. State r = 1) df \<noteq> []" using assms(2) by (auto simp: filter_empty_conv)
  then show ?thesis
    using assms by (simp add: extract_data_def class_weighting_of_def value_counts_at_def c Let_def)
qed

theorem class_weighting_pair_witness:
  "extract_data [\<lparr>Filename = ''a'', State = 0, features = [Some 1]\<rparr>,
                 \<lparr>Filename = ''b'', State = 1, features = [None]\<rparr>,
                 \<lparr>Filename = ''c'', State = 0, features = [Some 2]\<rparr>]
     = Inr ([[Some 1], [None], [Some 2]], [0, 1, 0], [''a'', ''b'', ''c''], [PInt 1, PFloat 2])"
  using class_weighting_pair[of
     "[\<lparr>Filename = ''a'', State = 0, features = [Some 1]\<rparr>,
       \<lparr>Filename = ''b'', State = 1, features = [None]\<rparr>,
       \<lparr>Filename = ''c'', State = 0, features = [Some 2]\<rparr>]"]
  by simp

section \<open>Claims about \<open>Training.run_model\<close>\<close>

lemma mask_filter:
  "length ss = length ts \<Longrightarrow> length ps = length ts \<Longrightarrow>
   map fst (filter snd (zip ss (map2 (\<noteq>) ts ps)))
     = map (\<lambda>i. ss ! i) (filter (\<lambda>i. ts ! i \<noteq> ps ! i) [0..<length ts])"
proof (induction ts arbitrary: ss ps rule: rev_induct)
  case Nil
  then show ?case by simp
next
  case (snoc t ts)
  obtain ss' s where ss: "ss = ss' @ [s]" using snoc.prems(1) by (cases ss rule: rev_cases) auto
  obtain ps' p where ps: "ps = ps' @ [p]" using snoc.prems(2) by (cases ps rule: rev_cases) auto
  have l: "length ss' = length ts" "length ps' = length ts" using snoc.prems ss ps by simp_all
  have z: "zip ss (map2 (\<noteq>) (ts @ [t]) ps) = zip ss' (map2 (\<noteq>) ts ps') @ [(s, t \<noteq> p)]"
    using l ss ps by simp
  have f: "filter (\<lambda>i. (ts @ [t]) ! i \<noteq> ps ! i) [0..<length ts]
         = filter (\<lambda>i. ts ! i \<noteq> ps' ! i) [0..<length ts]"
    using l ps by (intro filter_cong) (auto simp: nth_append)
  have m: "map (\<lambda>i. ss ! i) (filter (\<lambda>i. ts ! i \<noteq> ps' ! i) [0..<length ts])
         = map (\<lambda>i. ss' ! i) (filter (\<lambda>i. ts ! i \<noteq> ps' ! i) [0..<length ts])"
    using l ss by (intro map_cong) (auto simp: nth_append)
  show ?case
    using snoc.IH[OF l] l z f m ss ps by (simp add: nth_append)
qed

lemma agree_count:
  "length ps = length ts \<Longrightarrow>
   length (filter (\<lambda>(t, p). t = p) (zip ts ps)) + length (filter (\<lambda>i. ts ! i \<noteq> ps ! i) [0..<length ts])
     = length ts"
proof (induction ts arbitrary: ps rule: rev_induct)
  case Nil
  then show ?case by simp
next
  case (snoc t ts)
  obtain ps' p where ps: "ps = ps' @ [p]" using snoc.prems by (cases ps rule: rev_cases) auto
  have l: "length ps' = length ts" using snoc.prems ps by simp
  have f: "filter (\<lambda>i. (ts @ [t]) ! i \<noteq> ps ! i) [0..<length ts]
         = filter (\<lambda>i. ts ! i \<noteq> ps' ! i) [0..<length ts]"
    using l ps by (intro filter_cong) (auto simp: nth_append)
  show ?case using snoc.IH[OF l] l f ps by (simp add: nth_append)
qed

text \<open>
  C8. When the library calls of \<open>run_model\<close> complete (the prediction has one label per
  test row, the reports raise nothing, the confusion matrix has its four cells),
  \<open>run_model\<close> returns; the exported sessions are exactly those at the positions where
  the true label differs from the predicted one, in order (an identifier is exported if
  and only if it stands at such a position), and the returned value is
  \<open>accuracy_score(y_test, y_pred)\<close>, the fraction of the other positions, between 0 and 1.
\<close>

theorem run_model_exports_misclassified:
  assumes "fit_predict lib model X_train y_train X_test = Inr y_pred"
    and "length y_pred = length y_test"
    and "length sessions_test = length y_test"
    and "y_test \<noteq> []"
    and "classification_report lib y_test y_pred = None"
    and "confusion_matrix lib y_test y_pred = Inr cm"
    and "confusion cm = Inr stats"
    and "roc_plot lib y_test y_pred = None"
  shows "\<exists>missed acc.
           run_model lib model X_train y_train X_test y_test sessions_test = Inr (missed, acc)
         \<and> missed = map (\<lambda>i. sessions_test ! i)
                      (filter (\<lambda>i. y_test ! i \<noteq> y_pred ! i) [0..<length y_test])
         \<and> (\<forall>s. s \<in> set missed \<longleftrightarrow>
                  (\<exists>i<length y_test. sessions_test ! i = s \<and> y_test ! i \<noteq> y_pred ! i))
         \<and> accuracy_score y_test y_pred = Inr acc
         \<and> acc = 1 - of_nat (length missed) / of_nat (length y_test)
         \<and> 0 \<le> acc \<and> acc \<le> 1"
proof -
  define wrong where "wrong = filter (\<lambda>i. y_test ! i \<noteq> y_pred ! i) [0..<length y_test]"
  define right where "right = length (filter (\<lambda>(t, p). t = p) (zip y_test y_pred))"
  define acc :: rat where "acc = of_nat right / of_nat (length y_test)"
  have n: "0 < length y_test" using assms(4) by simp
  have sum: "right + length wrong = length y_test"
    unfolding right_def wrong_def using assms(2) by (rule agree_count)
  have a: "accuracy_score y_test y_pred = Inr acc"
    using assms(2,4) by (simp add: accuracy_score_def acc_def right_def)
  have m: "map fst (filter snd (zip sessions_test (map2 (\<noteq>) y_test y_pred)))
             = map (\<lambda>i. sessions_test ! i) wrong"
    unfolding wrong_def using assms(3,2) by (rule mask_filter)
  have r: "run_model lib model X_train y_train X_test y_test sessions_test
             = Inr (map (\<lambda>i. sessions_test ! i) wrong, acc)"
    using assms a m by (simp add: run_model_def roc_def Let_def)
  have "of_nat right = (of_nat (length y_test) :: rat) - of_nat (length wrong)"
    using sum by (metis add_diff_cancel_right' of_nat_add)
  then have e: "acc = 1 - of_nat (length wrong) / of_nat (length y_test)"
    using n by (simp add: acc_def field_simps)
  have "right \<le> length y_test" using sum by simp
  then have b: "0 \<le> acc \<and> acc \<le> 1" using n by (simp add: acc_def)
  have i: "\<forall>s. s \<in> set (map (\<lambda>i. sessions_test ! i) wrong) \<longleftrightarrow>
                  (\<exists>i<length y_test. sessions_test ! i = s \<and> y_test ! i \<noteq> y_pred ! i)"
    unfolding wrong_def by auto
  show ?thesis using r a e b i unfolding wrong_def by simp
qed

theorem run_model_exports_misclassified_witness:
  "fit_predict stub_sklearn (Model ''SVC'' []) [[0], [1]] [0, 1] [[1], [2], [3]] = Inr [0, 0, 0]
   \<and> confusion_matrix stub_sklearn [0, 1, 1] [0, 0, 0] = Inr [[1, 0], [2, 0]]
   \<and> run_model stub_sklearn (Model ''SVC'' []) [[0], [1]] [0, 1] [[1], [2], [3]] [0, 1, 1]
        [''s1'', ''s2'', ''s3''] = Inr ([''s2'', ''s3''], 1 / 3)"
  using run_model_exports_misclassified[of stub_sklearn "Model ''SVC'' []" "[[0], [1]]" "[0, 1]"
      "[[1], [2], [3]]" "[0, 0, 0]" "[0, 1, 1]" "[''s1'', ''s2'', ''s3'']" "[[1, 0], [2, 0]]"
      "\<lparr> model_accuracy = Some (1 / 3), model_error = Some (2 / 3), precision = Some 1,
         recall = Some (1 / 3), true_positive_rate = Some (1 / 3),
         false_positive_rate = None, specificity = None \<rparr>"]
  by (simp add: stub_sklearn_def confusion_def cm_at_def np_div_def upt_conv_Cons)


section \<open>Claims about \<open>Training.nested_cross_validation\<close>\<close>
















text \<open>
  C4. The imputer and the standardiser are fitted on the Train partition alone: for the
  same Train partition and any two Test partitions the imputer statistics, the fitted
  standardiser and the transformed Train data are the same. The imputer statistics are the
  fill value 0 for every column, and the Test partition is transformed with the imputer and
  the standardiser fitted on Train.
\<close>

theorem transforms_fitted_on_train_only:
  "imputer_statistics (preprocess lib X_train X_test1) = imputer_statistics (preprocess lib X_train X_test2)
   \<and> scaler_fitted (preprocess lib X_train X_test1) = scaler_fitted (preprocess lib X_train X_test2)
   \<and> X_train_scaled (preprocess lib X_train X_test1) = X_train_scaled (preprocess lib X_train X_test2)
   \<and> imputer_statistics (preprocess lib X_train X_test) = imputer_fit X_train
   \<and> set (imputer_fit X_train) \<subseteq> {0}
   \<and> scaler_fitted (preprocess lib X_train X_test)
        = scaler_fit lib (imputer_transform (imputer_fit X_train) X_train)
   \<and> X_test_scaled (preprocess lib X_train X_test)
        = scaler_transform lib (scaler_fitted (preprocess lib X_train X_test))
            (imputer_transform (imputer_statistics (preprocess lib X_train X_test)) X_test)"
proof -
  have "set (imputer_fit X_train) \<subseteq> {0}"
    by (cases X_train) (auto simp: imputer_fit_def)
  then show ?thesis by (simp add: preprocess_def Let_def)
qed

lemma qda_setup_grid: "qda_setup = Some s \<Longrightarrow> dict_get (param_grid s) ''class_weight'' = None"
  by (auto simp: qda_setup_def bind_eq_Some_conv)

lemma gaussian_nb_setup_grid: "gaussian_nb_setup = Some s \<Longrightarrow> dict_get (param_grid s) ''class_weight'' = None"
  by (auto simp: gaussian_nb_setup_def bind_eq_Some_conv)

lemma svm_setup_grid:
  "map_option (\<lambda>s. dict_get (param_grid s) ''class_weight'') svm_setup = Some (Some [PStr ''balanced''])"
  by (simp add: svm_setup_def frange_unit frange_gamma)

text \<open>
  C10. The class weighting stored by \<open>BaseModel.__init__\<close> is not read by \<open>run\<close>: replacing
  it by any other value changes neither the calls made nor the result. The SVM grid has
  the entry \<open>class_weight: ['balanced']\<close>, and the grid of no other family has a
  \<open>class_weight\<close> entry.
\<close>

theorem class_weighting_never_consumed:
  "run lib (self\<lparr>bm_class_weighting := w\<rparr>) = run lib self
   \<and> map_option (\<lambda>s. dict_get (param_grid s) ''class_weight'') svm_setup = Some (Some [PStr ''balanced''])
   \<and> (\<forall>model s. grid_search_of model = Some (Some s) \<longrightarrow> model \<noteq> ''svm''
          \<longrightarrow> dict_get (param_grid s) ''class_weight'' = None)"
proof -
  have a: "run lib (self\<lparr>bm_class_weighting := w\<rparr>) = run lib self"
    by (simp add: run_def split: option.splits)
  have c: "\<forall>model s. grid_search_of model = Some (Some s) \<longrightarrow> model \<noteq> ''svm''
          \<longrightarrow> dict_get (param_grid s) ''class_weight'' = None"
    using qda_setup_grid gaussian_nb_setup_grid
    by (auto simp: grid_search_of_def random_forest_setup_def knn_setup_def gaussian_pc_setup_def
          split: if_splits)
  show ?thesis using a svm_setup_grid c by blast
qed

theorem class_weighting_never_consumed_witness:
  "grid_search_of ''knn'' = Some (Some knn_setup) \<and> ''knn'' \<noteq> ''svm''
   \<and> dict_get (param_grid knn_setup) ''class_weight'' = None
   \<and> run stub_sklearn
        (\<lparr> bm_X = demo_X, bm_y = demo_y, bm_sessions = demo_sessions,
           bm_class_weighting = [PInt 1, PFloat 1], bm_model_type = Some ''knn'' \<rparr>
         \<lparr> bm_class_weighting := [PInt 1, PFloat 7] \<rparr>)
     = run stub_sklearn
        \<lparr> bm_X = demo_X, bm_y = demo_y, bm_sessions = demo_sessions,
          bm_class_weighting = [PInt 1, PFloat 1], bm_model_type = Some ''knn'' \<rparr>"
proof -
  have g1: "grid_search_of ''knn'' = Some (Some knn_setup)"
    by (simp add: grid_search_of_def)
  have g2: "''knn'' \<noteq> ''svm''" by simp
  note t = class_weighting_never_consumed[where lib = stub_sklearn and w = "[PInt 1, PFloat 7]"
         and self = "\<lparr> bm_X = demo_X, bm_y = demo_y, bm_sessions = demo_sessions,
            bm_class_weighting = [PInt 1, PFloat 1], bm_model_type = Some ''knn'' \<rparr>"]
  from t have r: "run stub_sklearn
        (\<lparr> bm_X = demo_X, bm_y = demo_y, bm_sessions = demo_sessions,
           bm_class_weighting = [PInt 1, PFloat 1], bm_model_type = Some ''knn'' \<rparr>
         \<lparr> bm_class_weighting := [PInt 1, PFloat 7] \<rparr>)
     = run stub_sklearn
        \<lparr> bm_X = demo_X, bm_y = demo_y, bm_sessions = demo_sessions,
          bm_class_weighting = [PInt 1, PFloat 1], bm_model_type = Some ''knn'' \<rparr>"
    by (rule conjunct1)
  from t have "\<forall>model s. grid_search_of model = Some (Some s) \<longrightarrow> model \<noteq> ''svm''
          \<longrightarrow> dict_get (param_grid s) ''class_weight'' = None"
    by (rule conjunct2[THEN conjunct2])
  then have d: "dict_get (param_grid knn_setup) ''class_weight'' = None"
    using g1 g2 by blast
  show ?thesis using g1 g2 d r by (intro conjI)
qed

end
